theory Spec2Isabelle
  imports Main "HOL-Library.Sublist"
begin

section \<open>DjangoQL completion: the tokenizer rules, name resolution, cursor context and suggestions\<close>

text \<open>
  The development embeds \<^verbatim>\<open>djangoql_completion_admin.js\<close> (the completion widget of
  DjangoQL). JavaScript strings are modelled as \<^typ>\<open>string\<close>, one \<^typ>\<open>char\<close> per
  code unit, which covers every text whose code units are below 256. JavaScript objects
  that the code uses as dictionaries (the introspection data) are association lists of
  their own properties in insertion order. Members inherited from
  \<^verbatim>\<open>Object.prototype\<close> are not modelled: a lookup of a name such as
  \<open>toString\<close> finds nothing here, while the host finds the inherited member, which
  \<^verbatim>\<open>resolveName\<close> then treats as a scalar field. A thrown \<^verbatim>\<open>TypeError\<close> is the left
  summand of a result.
\<close>

subsection \<open>String primitives of the host language\<close>

datatype error = TypeError

text \<open>\<^verbatim>\<open>s.split(sep)\<close> for a one-character separator: never the empty array.\<close>

fun split :: "char \<Rightarrow> string \<Rightarrow> string list" where
  "split sep [] = [[]]"
| "split sep (c # cs) =
     (if c = sep then [] # split sep cs
      else (case split sep cs of
              [] \<Rightarrow> [[c]]
            | s # ss \<Rightarrow> (c # s) # ss))"

text \<open>\<^verbatim>\<open>parts.join(sep)\<close>.\<close>

fun join :: "char \<Rightarrow> string list \<Rightarrow> string" where
  "join sep [] = []"
| "join sep [s] = s"
| "join sep (s # t # ts) = s @ sep # join sep (t # ts)"

text \<open>
  \<^verbatim>\<open>s.slice(a, b)\<close> for non-negative integer arguments: both ends are clamped to the
  length, and the result is empty when \<open>b \<le> a\<close>.
\<close>

definition slice :: "nat \<Rightarrow> nat \<Rightarrow> string \<Rightarrow> string" where
  "slice a b s = take (b - a) (drop a s)"

text \<open>
  \<^verbatim>\<open>item.lastIndexOf(s, pos)\<close>: the largest index \<open>k\<close> not above \<open>pos\<close> at which
  \<open>s\<close> occurs in \<open>item\<close>, or \<open>-1\<close>.
\<close>

fun lastIndexOf_from :: "string \<Rightarrow> string \<Rightarrow> nat \<Rightarrow> int" where
  "lastIndexOf_from item s 0 = (if take (length s) item = s then 0 else - 1)"
| "lastIndexOf_from item s (Suc k) =
     (if take (length s) (drop (Suc k) item) = s then int (Suc k)
      else lastIndexOf_from item s k)"

definition lastIndexOf :: "string \<Rightarrow> string \<Rightarrow> nat \<Rightarrow> int" where
  "lastIndexOf item s pos = lastIndexOf_from item s (min pos (length item - length s))"

text \<open>
  A value that is a string, \<^verbatim>\<open>null\<close> or \<^verbatim>\<open>undefined\<close>: a model name, a field
  name, the \<^verbatim>\<open>relation\<close> property of a field definition.
\<close>

datatype jsname = Null | Undefined | Str string

text \<open>Truthiness: only a non-empty string is truthy.\<close>

fun truthy :: "jsname \<Rightarrow> bool" where
  "truthy Null = False"
| "truthy Undefined = False"
| "truthy (Str s) = (s \<noteq> [])"

text \<open>A value used as a property key is converted to a string.\<close>

fun prop_key :: "jsname \<Rightarrow> string" where
  "prop_key Null = ''null''"
| "prop_key Undefined = ''undefined''"
| "prop_key (Str s) = s"

text \<open>
  Reading the property \<^verbatim>\<open>type\<close> of a string primitive: a string has no such
  property, own or inherited, so the read yields \<^verbatim>\<open>undefined\<close>.
\<close>

definition string_type_property :: "string \<Rightarrow> jsname" where
  "string_type_property s = Undefined"

subsection \<open>Schema graph and widget state\<close>

text \<open>
  A field definition \<^verbatim>\<open>{type: ..., relation: ...}\<close>; the \<^verbatim>\<open>relation\<close> property is
  \<^const>\<open>Undefined\<close> when the object has none.
\<close>

record FieldDef =
  fd_type :: string
  fd_relation :: jsname

type_synonym ModelDef = "(string \<times> FieldDef) list"

record DjangoQL =
  currentModel :: jsname
  models :: "(string \<times> ModelDef) list"
  prefix :: string
  suggestions :: "string list"

record ResolvedName =
  rn_model :: jsname
  rn_field :: jsname

subsection \<open>resolveName\<close>

text \<open>
  The \<^verbatim>\<open>for\<close> loop of \<^verbatim>\<open>resolveName\<close> over the remaining name parts.
  \<^verbatim>\<open>this.models[model][part]\<close> throws when \<^verbatim>\<open>this.models[model]\<close> is undefined;
  a field definition, once found, is an object and so is truthy.
\<close>

fun resolveName_loop ::
  "(string \<times> ModelDef) list \<Rightarrow> string list \<Rightarrow> jsname \<Rightarrow> jsname
     \<Rightarrow> error + ResolvedName" where
  "resolveName_loop ms [] model field = Inr \<lparr>rn_model = model, rn_field = field\<rparr>"
| "resolveName_loop ms (part # parts) model field =
     (case map_of ms (prop_key model) of
        None \<Rightarrow> Inl TypeError
      | Some fs \<Rightarrow>
          (case map_of fs part of
             None \<Rightarrow> Inr \<lparr>rn_model = Null, rn_field = Null\<rparr>
           | Some f \<Rightarrow>
               if fd_type f = ''relation''
               then resolveName_loop ms parts (fd_relation f) Null
               else resolveName_loop ms parts model (Str part)))"

definition resolveName :: "DjangoQL \<Rightarrow> string \<Rightarrow> error + ResolvedName" where
  "resolveName this name =
     (let nameParts = split (CHR ''.'') name;
          model = currentModel this
      in if truthy model then resolveName_loop (models this) nameParts model Null
         else Inr \<lparr>rn_model = model, rn_field = Null\<rparr>)"

text \<open>
  The invariant of the schema graph: the root model, when set, and the target of every
  relation field are keys of the models mapping.
\<close>

definition model_names :: "DjangoQL \<Rightarrow> string set" where
  "model_names this = fst ` set (models this)"

definition relation_ok :: "DjangoQL \<Rightarrow> FieldDef \<Rightarrow> bool" where
  "relation_ok this f =
     (if fd_type f = ''relation''
      then (case fd_relation f of Str t \<Rightarrow> t \<in> model_names this | _ \<Rightarrow> False)
      else True)"

definition wf_graph :: "DjangoQL \<Rightarrow> bool" where
  "wf_graph this =
     ((case currentModel this of Str m \<Rightarrow> m \<in> model_names this | _ \<Rightarrow> True) \<and>
      list_all (\<lambda>(m, fs). list_all (\<lambda>(n, f). relation_ok this f) fs) (models this))"

text \<open>The example graph of the specification, rooted at \<open>Order\<close>.\<close>

definition example_graph :: DjangoQL where
  "example_graph =
     \<lparr>currentModel = Str ''Order'',
      models =
        [(''Order'', [(''customer'', \<lparr>fd_type = ''relation'', fd_relation = Str ''Customer''\<rparr>)]),
         (''Customer'', [(''name'', \<lparr>fd_type = ''str'', fd_relation = Undefined\<rparr>)])],
      prefix = [],
      suggestions = []\<rparr>"

text \<open>A graph whose only relation points at a model that the mapping lacks.\<close>

definition dangling_graph :: DjangoQL where
  "dangling_graph =
     \<lparr>currentModel = Str ''Order'',
      models =
        [(''Order'', [(''customer'', \<lparr>fd_type = ''relation'', fd_relation = Str ''Customer''\<rparr>)])],
      prefix = [],
      suggestions = []\<rparr>"

text \<open>A graph with one model whose fields have several scalar kinds.\<close>

definition kinds_graph :: DjangoQL where
  "kinds_graph =
     \<lparr>currentModel = Str ''Customer'',
      models =
        [(''Customer'',
          [(''name'', \<lparr>fd_type = ''str'', fd_relation = Undefined\<rparr>),
           (''id'', \<lparr>fd_type = ''int'', fd_relation = Undefined\<rparr>),
           (''nation'', \<lparr>fd_type = ''str'', fd_relation = Undefined\<rparr>),
           (''active'', \<lparr>fd_type = ''bool'', fd_relation = Undefined\<rparr>)])],
      prefix = [],
      suggestions = []\<rparr>"

subsection \<open>Regular expressions of the tokenizer\<close>

text \<open>
  Each regular expression of the source is a function that, applied to the text that
  starts at the current position, returns the length of its match there, or \<^const>\<open>None\<close>
  when it does not match at that position. Greedy repetition and ordered alternation are
  followed as the host's backtracking matcher resolves them.
\<close>

datatype TokenKind =
    DOT | COMMA | OR | AND | NOT | IN | TRUE | FALSE | NONE | NAME
  | STRING_VALUE | INT_VALUE | FLOAT_VALUE | PAREN_L | PAREN_R
  | EQUALS | NOT_EQUALS | GREATER | GREATER_EQUAL | LESS | LESS_EQUAL
  | CONTAINS | NOT_CONTAINS

definition is_whitespace :: "char \<Rightarrow> bool" where
  "is_whitespace c = (c \<in> set [CHR '' '', CHR 0x09, CHR 0x0B, CHR 0x0C, CHR 0xA0])"

definition is_digit :: "char \<Rightarrow> bool" where
  "is_digit c = (c \<in> set ''0123456789'')"

definition is_name_start :: "char \<Rightarrow> bool" where
  "is_name_start c =
     (c \<in> set ''_ABCDEFGHIJKLMNOPQRSTUVWXYZabcdefghijklmnopqrstuvwxyz'')"

definition is_name_char :: "char \<Rightarrow> bool" where
  "is_name_char c = (is_name_start c \<or> is_digit c)"

definition is_hex_digit :: "char \<Rightarrow> bool" where
  "is_hex_digit c = (c \<in> set ''0123456789ABCDEFabcdef'')"

text \<open>\<^verbatim>\<open>/[ \t\v\f\u00A0]+/\<close>\<close>

definition whitespaceRegex :: "string \<Rightarrow> nat option" where
  "whitespaceRegex s =
     (case takeWhile is_whitespace s of [] \<Rightarrow> None | c # cs \<Rightarrow> Some (Suc (length cs)))"

text \<open>A pattern that is a fixed text, such as \<^verbatim>\<open>/\./\<close> or \<^verbatim>\<open>/!=/\<close>.\<close>

definition literal :: "string \<Rightarrow> string \<Rightarrow> nat option" where
  "literal lit s = (if take (length lit) s = lit then Some (length lit) else None)"

text \<open>\<^verbatim>\<open>(?![_0-9A-Za-z])\<close>, applied to the text after a keyword.\<close>

definition reNotFollowedByName :: "string \<Rightarrow> bool" where
  "reNotFollowedByName s = (case s of [] \<Rightarrow> True | c # cs \<Rightarrow> \<not> is_name_char c)"

definition keyword :: "string \<Rightarrow> string \<Rightarrow> nat option" where
  "keyword kw s =
     (if take (length kw) s = kw \<and> reNotFollowedByName (drop (length kw) s)
      then Some (length kw) else None)"

text \<open>
  \<^verbatim>\<open>/[_A-Za-z][_0-9A-Za-z]*(\.[_A-Za-z][_0-9A-Za-z]*)*/\<close>: \<open>name_rest\<close> is the
  length matched after the first character of a segment.
\<close>

fun name_rest :: "string \<Rightarrow> nat" where
  "name_rest [] = 0"
| "name_rest (c # cs) =
     (if is_name_char c then Suc (name_rest cs)
      else if c = CHR ''.'' then
        (case cs of
           [] \<Rightarrow> 0
         | d # ds \<Rightarrow> if is_name_start d then Suc (Suc (name_rest ds)) else 0)
      else 0)"

definition nameRegex :: "string \<Rightarrow> nat option" where
  "nameRegex s =
     (case s of
        [] \<Rightarrow> None
      | c # cs \<Rightarrow> if is_name_start c then Some (Suc (name_rest cs)) else None)"

text \<open>
  \<^verbatim>\<open>stringRegex\<close>: an opening quote, then any number of escaped characters
  (\<^verbatim>\<open>reEscapedChar\<close>), four-digit unicode escapes (\<^verbatim>\<open>reEscapedUnicode\<close>) and plain
  characters (\<^verbatim>\<open>reStringChar\<close>: no quote, backslash or line terminator), then a closing
  quote. \<open>string_rest\<close> is the length matched after the opening quote.
\<close>

fun string_rest :: "string \<Rightarrow> nat option" where
  "string_rest [] = None"
| "string_rest (c # cs) =
     (if c = CHR 0x5C then
        (case cs of
           [] \<Rightarrow> None
         | d # ds \<Rightarrow>
             if d \<in> set [CHR 0x5C, CHR 0x22, CHR ''/'', CHR ''b'', CHR ''f'', CHR ''n'',
                          CHR ''r'', CHR ''t'']
             then map_option (\<lambda>n. n + 2) (string_rest ds)
             else if d = CHR ''u'' \<and> 4 \<le> length ds \<and> list_all is_hex_digit (take 4 ds)
             then map_option (\<lambda>n. n + 6) (string_rest (drop 4 ds))
             else None)
      else if c = CHR 0x22 then Some 1
      else if c \<in> set [CHR 0x0A, CHR 0x0D] then None
      else map_option Suc (string_rest cs))"

definition stringRegex :: "string \<Rightarrow> nat option" where
  "stringRegex s =
     (case s of
        [] \<Rightarrow> None
      | c # cs \<Rightarrow> if c = CHR 0x22 then map_option Suc (string_rest cs) else None)"

text \<open>\<^verbatim>\<open>reIntValue = '(-?0|-?[1-9][0-9]*)'\<close>\<close>

definition intRegex :: "string \<Rightarrow> nat option" where
  "intRegex s =
     (let k = (case s of [] \<Rightarrow> 0 | c # cs \<Rightarrow> if c = CHR ''-'' then 1 else 0)
      in case drop k s of
           [] \<Rightarrow> None
         | c # cs \<Rightarrow>
             if c = CHR ''0'' then Some (k + 1)
             else if c \<in> set ''123456789''
             then Some (k + 1 + length (takeWhile is_digit cs))
             else None)"

text \<open>\<^verbatim>\<open>reFractionPart = '\\.[0-9]+'\<close>\<close>

definition reFractionPart :: "string \<Rightarrow> nat option" where
  "reFractionPart s =
     (case s of
        [] \<Rightarrow> None
      | c # cs \<Rightarrow>
          if c = CHR ''.'' then
            (case takeWhile is_digit cs of [] \<Rightarrow> None | d # ds \<Rightarrow> Some (2 + length ds))
          else None)"

text \<open>\<^verbatim>\<open>reExponentPart = '[eE][+-]?[0-9]+'\<close>\<close>

definition reExponentPart :: "string \<Rightarrow> nat option" where
  "reExponentPart s =
     (case s of
        [] \<Rightarrow> None
      | c # cs \<Rightarrow>
          if c \<in> set ''eE'' then
            (let k = (case cs of [] \<Rightarrow> 0 | d # ds \<Rightarrow> if d \<in> set ''+-'' then 1 else 0)
             in case takeWhile is_digit (drop k cs) of
                  [] \<Rightarrow> None
                | d # ds \<Rightarrow> Some (2 + k + length ds))
          else None)"

text \<open>
  \<^verbatim>\<open>floatRegex\<close>: the three alternatives in order, integer-fraction-exponent,
  integer-fraction, integer-exponent.
\<close>

definition floatRegex :: "string \<Rightarrow> nat option" where
  "floatRegex s =
     (case intRegex s of
        None \<Rightarrow> None
      | Some i \<Rightarrow>
          (case reFractionPart (drop i s) of
             Some f \<Rightarrow>
               (case reExponentPart (drop (i + f) s) of
                  Some e \<Rightarrow> Some (i + f + e)
                | None \<Rightarrow> Some (i + f))
           | None \<Rightarrow>
               (case reExponentPart (drop i s) of
                  Some e \<Rightarrow> Some (i + e)
                | None \<Rightarrow> None)))"

text \<open>
  \<^verbatim>\<open>prefix.match(whitespaceRegex)\<close>: the pattern is not anchored, so the match is the
  first one at any position of the text; the result is the matched text.
\<close>

fun match :: "(string \<Rightarrow> nat option) \<Rightarrow> string \<Rightarrow> string option" where
  "match re [] = map_option (\<lambda>n. []) (re [])"
| "match re (c # cs) =
     (case re (c # cs) of
        Some n \<Rightarrow> Some (take n (c # cs))
      | None \<Rightarrow> match re cs)"

subsection \<open>Lexer rules\<close>

text \<open>\<^verbatim>\<open>token(name, value)\<close>: the object a rule's action returns.\<close>

definition token :: "TokenKind \<Rightarrow> string \<Rightarrow> TokenKind \<times> string" where
  "token name value = (name, value)"

text \<open>
  A rule is a pattern and an action; the action receives the lexeme and returns a token,
  or nothing (the whitespace rule).
\<close>

type_synonym rule = "(string \<Rightarrow> nat option) \<times> (string \<Rightarrow> (TokenKind \<times> string) option)"

definition whitespace_rule :: rule where
  "whitespace_rule = (whitespaceRegex, \<lambda>l. None)"

definition literal_rule :: "string \<Rightarrow> TokenKind \<Rightarrow> rule" where
  "literal_rule lit name = (literal lit, \<lambda>l. Some (token name l))"

definition keyword_rule :: "string \<Rightarrow> TokenKind \<Rightarrow> rule" where
  "keyword_rule kw name = (keyword kw, \<lambda>l. Some (token name l))"

definition name_rule :: rule where
  "name_rule = (nameRegex, \<lambda>l. Some (token NAME l))"

text \<open>The action of the string rule trims the leading and trailing quotes.\<close>

definition string_rule :: rule where
  "string_rule = (stringRegex, \<lambda>l. Some (token STRING_VALUE (slice 1 (length l - 1) l)))"

definition int_rule :: rule where
  "int_rule = (intRegex, \<lambda>l. Some (token INT_VALUE l))"

definition float_rule :: rule where
  "float_rule = (floatRegex, \<lambda>l. Some (token FLOAT_VALUE l))"

text \<open>The rules in the order in which the source registers them with \<^verbatim>\<open>addRule\<close>.\<close>

definition registered_rules :: "rule list" where
  "registered_rules =
     [whitespace_rule,
      literal_rule ''.'' DOT,
      literal_rule '','' COMMA,
      keyword_rule ''or'' OR,
      keyword_rule ''and'' AND,
      keyword_rule ''not'' NOT,
      keyword_rule ''in'' IN,
      keyword_rule ''True'' TRUE,
      keyword_rule ''False'' FALSE,
      keyword_rule ''None'' NONE,
      name_rule,
      string_rule,
      int_rule,
      float_rule,
      literal_rule ''('' PAREN_L,
      literal_rule '')'' PAREN_R,
      literal_rule ''='' EQUALS,
      literal_rule ''!='' NOT_EQUALS,
      literal_rule ''>'' GREATER,
      literal_rule ''>='' GREATER_EQUAL,
      literal_rule ''<'' LESS,
      literal_rule ''<='' LESS_EQUAL,
      literal_rule ''~'' CONTAINS,
      literal_rule ''!~'' NOT_CONTAINS]"

subsection \<open>The lexer engine\<close>

text \<open>
  The \<^verbatim>\<open>Lexer\<close> library (its constructor, \<^verbatim>\<open>addRule\<close>, \<^verbatim>\<open>setInput\<close> and
  \<^verbatim>\<open>lex\<close>) is required by the source but is not part of it. The specification
  (section 4.1) gives its behaviour: the rule list is tried in order and the first rule
  that matches at the current position wins; whitespace is consumed without a token; a
  character that no rule matches is skipped silently; the scan goes on until the input
  is exhausted. The rule list is the one the source registers, in the order of its
  \<^verbatim>\<open>addRule\<close> calls.
\<close>

text \<open>
  Modelled from the spec: the rule selection of the missing \<^verbatim>\<open>Lexer\<close> library. The
  first rule, in order, whose pattern matches at the head of the text wins: the result is
  the length of its match and what its action returns for the lexeme.
\<close>

fun first_match :: "rule list \<Rightarrow> string \<Rightarrow> (nat \<times> (TokenKind \<times> string) option) option" where
  "first_match [] s = None"
| "first_match (r # rs) s =
     (case fst r s of
        Some n \<Rightarrow> Some (n, snd r (take n s))
      | None \<Rightarrow> first_match rs s)"

text \<open>Every rule consumes at least one character where it matches.\<close>

lemma whitespaceRegex_pos: "whitespaceRegex s = Some n \<Longrightarrow> 0 < n"
  by (auto simp: whitespaceRegex_def split: list.splits)

lemma nameRegex_pos: "nameRegex s = Some n \<Longrightarrow> 0 < n"
  by (auto simp: nameRegex_def split: list.splits if_splits)

lemma stringRegex_pos: "stringRegex s = Some n \<Longrightarrow> 0 < n"
  by (auto simp: stringRegex_def split: list.splits if_splits)

lemma intRegex_pos: "intRegex s = Some n \<Longrightarrow> 0 < n"
  by (auto simp: intRegex_def Let_def split: list.splits if_splits)

lemma floatRegex_pos: "floatRegex s = Some n \<Longrightarrow> 0 < n"
  by (auto simp: floatRegex_def split: option.splits dest: intRegex_pos)

lemma literal_pos: "lit \<noteq> [] \<Longrightarrow> literal lit s = Some n \<Longrightarrow> 0 < n"
  by (auto simp: literal_def split: if_splits)

lemma keyword_pos: "kw \<noteq> [] \<Longrightarrow> keyword kw s = Some n \<Longrightarrow> 0 < n"
  by (auto simp: keyword_def split: if_splits)

lemma first_match_registered_pos: "first_match registered_rules s = Some (n, a) \<Longrightarrow> 0 < n"
  unfolding registered_rules_def whitespace_rule_def literal_rule_def keyword_rule_def name_rule_def
    string_rule_def int_rule_def float_rule_def
  by (auto split: option.splits
      dest: whitespaceRegex_pos nameRegex_pos stringRegex_pos intRegex_pos floatRegex_pos
        literal_pos [rotated] keyword_pos [rotated])

text \<open>
  Modelled from the spec: \<^verbatim>\<open>lex()\<close> of the missing \<^verbatim>\<open>Lexer\<close> library, at position
  \<open>index\<close> of the input. It returns the next token together with the position after
  it (the library's \<^verbatim>\<open>this.index\<close>), or \<^const>\<open>None\<close> (the host's
  \<^verbatim>\<open>undefined\<close>) once the input is exhausted. A match whose action returns nothing is
  consumed, and a character that no rule matches is skipped.
\<close>

function lex :: "string \<Rightarrow> nat \<Rightarrow> ((TokenKind \<times> string) \<times> nat) option" where
  "lex input index =
     (if length input \<le> index then None
      else (case first_match registered_rules (drop index input) of
              None \<Rightarrow> lex input (Suc index)
            | Some (n, None) \<Rightarrow> lex input (index + n)
            | Some (n, Some tok) \<Rightarrow> Some (tok, index + n)))"
  by pat_completeness auto
termination
  by (relation "measure (\<lambda>(input, index). length input - index)")
     (auto dest: first_match_registered_pos)

declare lex.simps [simp del]

lemma lex_advances:
  "lex input index = Some (tok, index') \<Longrightarrow> index < index' \<and> index < length input"
proof (induction input index rule: lex.induct)
  case (1 input index)
  from "1.prems" have less: "index < length input"
    by (subst (asm) lex.simps) (simp split: if_splits)
  show ?case
  proof (cases "first_match registered_rules (drop index input)")
    case None
    with less "1.prems" have "lex input (Suc index) = Some (tok, index')"
      by (subst (asm) lex.simps) simp
    with "1.IH"(1) less None show ?thesis by fastforce
  next
    case (Some m)
    obtain n a where m: "m = (n, a)" by (cases m)
    from Some m have pos: "0 < n" by (auto dest: first_match_registered_pos)
    show ?thesis
    proof (cases a)
      case None
      with less Some m "1.prems" have "lex input (index + n) = Some (tok, index')"
        by (subst (asm) lex.simps) simp
      with "1.IH"(2) less Some m None pos show ?thesis by fastforce
    next
      case (Some t)
      with less \<open>first_match registered_rules (drop index input) = Some m\<close> m "1.prems"
      have "index' = index + n"
        by (subst (asm) lex.simps) simp
      with pos less show ?thesis by simp
    qed
  qed
qed

subsection \<open>lexAll\<close>

record Token =
  tk_name :: TokenKind
  tk_value :: string
  tk_start :: nat
  tk_end :: nat

text \<open>
  The \<^verbatim>\<open>while\<close> loop of \<^verbatim>\<open>lexAll\<close>: every token \<^verbatim>\<open>lex()\<close> returns gets
  \<^verbatim>\<open>start = this.index - match.value.length\<close> and \<^verbatim>\<open>end = this.index\<close> and is
  pushed on the result. A token is an object, hence truthy, so the loop ends exactly when
  \<^verbatim>\<open>lex()\<close> returns \<^verbatim>\<open>undefined\<close>.
\<close>

function lexAll_loop :: "string \<Rightarrow> nat \<Rightarrow> Token list \<Rightarrow> Token list" where
  "lexAll_loop input index result =
     (case lex input index of
        None \<Rightarrow> result
      | Some ((name, value), index') \<Rightarrow>
          lexAll_loop input index'
            (result @ [\<lparr>tk_name = name, tk_value = value,
                         tk_start = index' - length value, tk_end = index'\<rparr>]))"
  by pat_completeness auto
termination
  by (relation "measure (\<lambda>(input, index, result). length input - index)")
     (auto dest!: lex_advances)

declare lexAll_loop.simps [simp del]

text \<open>\<^verbatim>\<open>this.lexer.setInput(input).lexAll()\<close>: \<^verbatim>\<open>setInput\<close> resets the position to 0.\<close>

definition lexAll :: "string \<Rightarrow> Token list" where
  "lexAll input = lexAll_loop input 0 []"

subsection \<open>getContext\<close>

datatype Scope = FIELD | COMPARISON | VALUE | LOGICAL

text \<open>The object \<^verbatim>\<open>getContext\<close> returns; a \<^verbatim>\<open>null\<close> scope is \<^const>\<open>None\<close>.\<close>

record Context =
  ctx_prefix :: string
  ctx_scope :: "Scope option"
  ctx_model :: jsname
  ctx_field :: jsname

text \<open>
  \<^verbatim>\<open>t && [...].indexOf(t.name) >= 0\<close> for a token variable \<open>t\<close> that may be
  \<^verbatim>\<open>null\<close>.
\<close>

fun name_in :: "Token option \<Rightarrow> TokenKind list \<Rightarrow> bool" where
  "name_in None names = False"
| "name_in (Some t) names = (tk_name t \<in> set names)"

text \<open>
  The branch of \<^verbatim>\<open>getContext\<close> that sets the scope to \<^verbatim>\<open>'field'\<close>. Reading
  \<^verbatim>\<open>lastToken.start\<close> throws when \<^verbatim>\<open>lastToken\<close> is \<^verbatim>\<open>null\<close>.
\<close>

definition field_branch ::
  "DjangoQL \<Rightarrow> string \<Rightarrow> nat \<Rightarrow> Token option \<Rightarrow> string \<Rightarrow> error + Context" where
  "field_branch this text cursorPos lastToken prefix0 =
     (case (if prefix0 = ''.''
            then (case lastToken of
                    None \<Rightarrow> Inl TypeError
                  | Some t \<Rightarrow> Inr (slice (tk_start t) cursorPos text))
            else Inr prefix0) of
        Inl e \<Rightarrow> Inl e
      | Inr prefix1 \<Rightarrow>
          (let nameParts = split (CHR ''.'') prefix1
           in if 1 < length nameParts then
                (case resolveName this (join (CHR ''.'') (butlast nameParts)) of
                   Inl e \<Rightarrow> Inl e
                 | Inr resolvedName \<Rightarrow>
                     if truthy (rn_model resolvedName) \<and> \<not> truthy (rn_field resolvedName)
                     then Inr \<lparr>ctx_prefix = last nameParts, ctx_scope = Some FIELD,
                               ctx_model = rn_model resolvedName, ctx_field = Null\<rparr>
                     else Inr \<lparr>ctx_prefix = last nameParts, ctx_scope = None,
                               ctx_model = Null, ctx_field = Null\<rparr>)
              else Inr \<lparr>ctx_prefix = prefix1, ctx_scope = Some FIELD,
                        ctx_model = currentModel this, ctx_field = Null\<rparr>))"

text \<open>
  The branches that resolve a name token and, when it resolves to a model, set the
  scope to \<^verbatim>\<open>'value'\<close> or \<^verbatim>\<open>'comparison'\<close>.
\<close>

definition name_branch :: "DjangoQL \<Rightarrow> Scope \<Rightarrow> string \<Rightarrow> string \<Rightarrow> error + Context" where
  "name_branch this scope name prefix0 =
     (case resolveName this name of
        Inl e \<Rightarrow> Inl e
      | Inr resolvedName \<Rightarrow>
          if truthy (rn_model resolvedName)
          then Inr \<lparr>ctx_prefix = prefix0, ctx_scope = Some scope,
                    ctx_model = rn_model resolvedName, ctx_field = rn_field resolvedName\<rparr>
          else Inr \<lparr>ctx_prefix = prefix0, ctx_scope = None,
                    ctx_model = Null, ctx_field = Null\<rparr>)"

definition getContext :: "DjangoQL \<Rightarrow> string \<Rightarrow> nat \<Rightarrow> error + Context" where
  "getContext this text cursorPos =
     (let tokens0 = lexAll (slice 0 cursorPos text);
          tokens = (if tokens0 \<noteq> [] \<and> cursorPos \<le> tk_end (last tokens0)
                    then butlast tokens0 else tokens0);
          lastToken = (if tokens \<noteq> [] then Some (last tokens) else None);
          nextToLastToken =
            (if 1 < length tokens then Some (tokens ! (length tokens - 2)) else None);
          prefix0 = slice (case lastToken of None \<Rightarrow> 0 | Some t \<Rightarrow> tk_end t) cursorPos text;
          whitespace = match whitespaceRegex prefix0;
          prefix1 = (case whitespace of None \<Rightarrow> prefix0 | Some w \<Rightarrow> drop (length w) prefix0);
          prefix2 = (if prefix1 = ''('' then [] else prefix1)
      in if prefix2 = '')'' \<and> whitespace = None then
           Inr \<lparr>ctx_prefix = prefix2, ctx_scope = None, ctx_model = Null, ctx_field = Null\<rparr>
         else if lastToken = None \<or>
                 (name_in lastToken [AND, OR] \<and> whitespace \<noteq> None) \<or>
                 (prefix2 = ''.'' \<and> lastToken \<noteq> None \<and> whitespace = None) \<or>
                 (name_in lastToken [PAREN_L] \<and>
                    (nextToLastToken = None \<or> name_in nextToLastToken [AND, OR])) then
           field_branch this text cursorPos lastToken prefix2
         else if lastToken \<noteq> None \<and> whitespace \<noteq> None \<and> name_in nextToLastToken [NAME] \<and>
                 name_in lastToken [EQUALS, NOT_EQUALS, CONTAINS, NOT_CONTAINS, GREATER_EQUAL,
                                    GREATER, LESS_EQUAL, LESS] then
           (case nextToLastToken of
              None \<Rightarrow> Inl TypeError \<comment> \<open>not reached: the condition excludes it\<close>
            | Some t \<Rightarrow> name_branch this VALUE (tk_value t) prefix2)
         else if whitespace \<noteq> None \<and> name_in lastToken [NAME] then
           (case lastToken of
              None \<Rightarrow> Inl TypeError \<comment> \<open>not reached: the condition excludes it\<close>
            | Some t \<Rightarrow> name_branch this COMPARISON (tk_value t) prefix2)
         else if whitespace \<noteq> None \<and>
                 name_in lastToken [PAREN_R, INT_VALUE, FLOAT_VALUE, STRING_VALUE] then
           Inr \<lparr>ctx_prefix = prefix2, ctx_scope = Some LOGICAL, ctx_model = Null,
                ctx_field = Null\<rparr>
         else
           Inr \<lparr>ctx_prefix = prefix2, ctx_scope = None, ctx_model = Null, ctx_field = Null\<rparr>)"

text \<open>
  The value of the variable \<^verbatim>\<open>tokens\<close> of \<^verbatim>\<open>getContext\<close> once the token under
  the cursor, if there is one, has been removed: the tokens that precede the text being
  typed.
\<close>

definition completed_tokens :: "string \<Rightarrow> nat \<Rightarrow> Token list" where
  "completed_tokens text cursorPos =
     (let tokens = lexAll (slice 0 cursorPos text)
      in if tokens \<noteq> [] \<and> cursorPos \<le> tk_end (last tokens) then butlast tokens else tokens)"

subsection \<open>generateSuggestions\<close>

record Input =
  inp_value :: string
  selectionStart :: nat
  selectionEnd :: nat

text \<open>
  The \<^verbatim>\<open>'comparison'\<close> case of the \<^verbatim>\<open>switch\<close>. \<^verbatim>\<open>context.field\<close> is what
  \<^verbatim>\<open>getContext\<close> stored there: \<^verbatim>\<open>null\<close> or the field's name, a string, whose
  \<^verbatim>\<open>type\<close> property the code then reads.
\<close>

definition comparison_suggestions :: "jsname \<Rightarrow> string list" where
  "comparison_suggestions field =
     (case field of
        Str s \<Rightarrow>
          if s \<noteq> [] \<and> string_type_property s \<noteq> Str ''bool''
          then [''='', ''!=''] @
               (if string_type_property s = Str ''str'' then [''~'', ''!~''] else []) @
               [''>'', ''>='', ''<'', ''<='', ''in'', ''not in'']
          else [''='', ''!='']
      | _ \<Rightarrow> [''='', ''!=''])"

text \<open>
  The \<^verbatim>\<open>switch\<close> on \<^verbatim>\<open>context.scope\<close>: the values of \<^verbatim>\<open>this.prefix\<close> and
  \<^verbatim>\<open>this.suggestions\<close> after it, before the final filter.
  \<^verbatim>\<open>Object.keys(this.models[context.model])\<close> throws when the model is not a key of
  the mapping. The scope \<^verbatim>\<open>'value'\<close> has no case of its own and falls to the default.
\<close>

definition switch_scope :: "DjangoQL \<Rightarrow> Context \<Rightarrow> error + string \<times> string list" where
  "switch_scope this context =
     (case ctx_scope context of
        Some FIELD \<Rightarrow>
          (case map_of (models this) (prop_key (ctx_model context)) of
             None \<Rightarrow> Inl TypeError
           | Some fs \<Rightarrow> Inr (ctx_prefix context, map fst fs))
      | Some COMPARISON \<Rightarrow>
          Inr (ctx_prefix context, comparison_suggestions (ctx_field context))
      | Some LOGICAL \<Rightarrow> Inr (ctx_prefix context, [''and'', ''or''])
      | _ \<Rightarrow> Inr ([], []))"

text \<open>
  The callback of the final \<^verbatim>\<open>filter\<close>:
  \<^verbatim>\<open>item.lastIndexOf(this.prefix, 0) === 0\<close>.
\<close>

definition filter_suggestions :: "string \<Rightarrow> string list \<Rightarrow> string list" where
  "filter_suggestions p items = filter (\<lambda>item. lastIndexOf item p 0 = 0) items"

definition generateSuggestions :: "DjangoQL \<Rightarrow> Input \<Rightarrow> error + DjangoQL" where
  "generateSuggestions this input =
     (if selectionStart input \<noteq> selectionEnd input
      then Inr (this\<lparr>prefix := [], suggestions := []\<rparr>)
      else (case getContext this (inp_value input) (selectionStart input) of
              Inl e \<Rightarrow> Inl e
            | Inr context \<Rightarrow>
                (case switch_scope this context of
                   Inl e \<Rightarrow> Inl e
                 | Inr (p, items) \<Rightarrow>
                     Inr (this\<lparr>prefix := p, suggestions := filter_suggestions p items\<rparr>))))"

subsection \<open>Facts about name resolution\<close>

lemma split_not_Nil: "split sep s \<noteq> []"
  by (induction s) (auto split: list.splits)

lemma map_of_fst_image: "map_of xs k = Some v \<Longrightarrow> k \<in> fst ` set xs"
  by (metis map_of_SomeD fst_conv image_eqI)

lemma wf_graph_relation:
  assumes wf: "wf_graph this"
    and m: "map_of (models this) m = Some fs"
    and f: "map_of fs part = Some f"
    and rel: "fd_type f = ''relation''"
  shows "\<exists>t. fd_relation f = Str t \<and> t \<in> model_names this"
proof -
  from m have "(m, fs) \<in> set (models this)" by (rule map_of_SomeD)
  moreover from f have "(part, f) \<in> set fs" by (rule map_of_SomeD)
  ultimately have "relation_ok this f"
    using wf by (auto simp: wf_graph_def list_all_iff)
  with rel show ?thesis
    by (auto simp: relation_ok_def split: jsname.splits)
qed

lemma resolveName_loop_wf:
  assumes wf: "wf_graph this"
  shows "m \<in> model_names this \<Longrightarrow>
         \<exists>r. resolveName_loop (models this) parts (Str m) field = Inr r \<and>
             (case rn_model r of Str m' \<Rightarrow> m' \<in> model_names this | _ \<Rightarrow> rn_field r = Null)"
proof (induction parts arbitrary: m field)
  case Nil
  then show ?case by simp
next
  case (Cons part parts)
  from Cons.prems obtain fs where fs: "map_of (models this) m = Some fs"
    by (cases "map_of (models this) m")
       (auto simp: model_names_def map_of_eq_None_iff)
  show ?case
  proof (cases "map_of fs part")
    case None
    with fs show ?thesis by simp
  next
    case (Some f)
    show ?thesis
    proof (cases "fd_type f = ''relation''")
      case True
      from wf_graph_relation [OF wf fs Some True]
      obtain t where t: "fd_relation f = Str t" "t \<in> model_names this" by blast
      from Cons.IH [OF t(2), of Null] fs Some True t(1) show ?thesis by simp
    next
      case False
      from Cons.IH [OF Cons.prems, of "Str part"] fs Some False show ?thesis by simp
    qed
  qed
qed

text \<open>
  C1 (as amended). On every graph that satisfies the schema invariant (the root model,
  when set, and every relation target are keys of the models mapping), \<^verbatim>\<open>resolveName\<close>
  returns a ResolvedName for every dotted path, empty and malformed segments included; it
  never throws, and a result whose model is not a model name has a null field.
\<close>

theorem resolveName_total_on_wf_graph:
  assumes "wf_graph this"
  shows "\<exists>r. resolveName this name = Inr r \<and>
             (case rn_model r of Str m \<Rightarrow> m \<in> model_names this | _ \<Rightarrow> rn_field r = Null)"
proof (cases "currentModel this")
  case Null
  then show ?thesis by (simp add: resolveName_def)
next
  case Undefined
  then show ?thesis by (simp add: resolveName_def)
next
  case (Str m)
  with assms have m: "m \<in> model_names this" by (simp add: wf_graph_def)
  show ?thesis
  proof (cases "m = []")
    case True
    with Str m show ?thesis by (simp add: resolveName_def)
  next
    case False
    with Str resolveName_loop_wf [OF assms m, of "split (CHR ''.'') name" Null]
    show ?thesis by (simp add: resolveName_def)
  qed
qed

theorem resolveName_total_on_wf_graph_witness:
  "wf_graph example_graph \<and>
   (\<exists>r. resolveName example_graph ''customer..name'' = Inr r \<and>
        (case rn_model r of Str m \<Rightarrow> m \<in> model_names example_graph
         | _ \<Rightarrow> rn_field r = Null))"
proof -
  have wf: "wf_graph example_graph"
    by (simp add: wf_graph_def example_graph_def model_names_def relation_ok_def)
  from wf resolveName_total_on_wf_graph [OF wf, of "''customer..name''"]
  show ?thesis by simp
qed

text \<open>
  C1 (as stated) fails: on a graph whose relation target is not a key of the models
  mapping, resolving a path that continues past the relation throws.
\<close>

theorem resolveName_dangling_relation_throws:
  "resolveName dangling_graph ''customer.name'' = Inl TypeError"
  by (simp add: resolveName_def dangling_graph_def)

lemma split_append_separator:
  "split sep (p @ sep # q) = split sep p @ split sep q"
proof (induction p)
  case Nil
  then show ?case by simp
next
  case (Cons c cs)
  obtain s ss where "split sep cs = s # ss"
    by (cases "split sep cs") (auto simp: split_not_Nil)
  with Cons show ?case by simp
qed

lemma split_dot_name_segments:
  "split (CHR ''.'') (p @ concat (replicate n ''.name'')) =
     split (CHR ''.'') p @ replicate n ''name''"
proof (induction n arbitrary: p)
  case 0
  then show ?case by simp
next
  case (Suc n)
  have "p @ concat (replicate (Suc n) ''.name'') =
        p @ CHR ''.'' # (''name'' @ concat (replicate n ''.name''))" by simp
  then have "split (CHR ''.'') (p @ concat (replicate (Suc n) ''.name'')) =
        split (CHR ''.'') p @ split (CHR ''.'') (''name'' @ concat (replicate n ''.name''))"
    by (simp only: split_append_separator)
  also have "split (CHR ''.'') (''name'' @ concat (replicate n ''.name'')) =
        split (CHR ''.'') ''name'' @ replicate n ''name''" by (rule Suc.IH)
  finally show ?case by (simp add: replicate_app_Cons_same)
qed

lemma resolveName_loop_name_segments:
  "resolveName_loop (models example_graph) (replicate n ''name'') (Str ''Customer'')
       (Str ''name'') =
     Inr \<lparr>rn_model = Str ''Customer'', rn_field = Str ''name''\<rparr>"
  by (induction n) (simp_all add: example_graph_def)

text \<open>
  What \<^verbatim>\<open>resolveName\<close> does on the example graph. The path \<open>customer.name\<close> resolves
  from \<open>Order\<close> to model \<open>Customer\<close> and field \<open>name\<close>. The path \<open>customer.name.x\<close>,
  and every text that extends it, resolves to neither a model nor a field: the segment
  after the scalar is looked up in \<open>Customer\<close>, which has no such field, and what follows
  is not looked at. But \<open>customer.name\<close> followed by any number of further \<open>.name\<close>
  segments still yields \<open>Customer\<close> and \<open>name\<close>: the loop records a scalar field and
  goes on in the same model, with no check that the scalar is the last segment.
\<close>

lemma resolveName_example_paths:
  "resolveName example_graph ''customer.name'' =
     Inr \<lparr>rn_model = Str ''Customer'', rn_field = Str ''name''\<rparr> \<and>
   resolveName example_graph ''customer.name.x'' =
     Inr \<lparr>rn_model = Null, rn_field = Null\<rparr> \<and>
   resolveName example_graph (''customer.name.x'' @ rest) =
     Inr \<lparr>rn_model = Null, rn_field = Null\<rparr> \<and>
   resolveName example_graph (''customer.name'' @ concat (replicate n ''.name'')) =
     Inr \<lparr>rn_model = Str ''Customer'', rn_field = Str ''name''\<rparr>"
proof (intro conjI)
  show "resolveName example_graph ''customer.name'' =
     Inr \<lparr>rn_model = Str ''Customer'', rn_field = Str ''name''\<rparr>"
    by (simp add: resolveName_def example_graph_def)
  show "resolveName example_graph ''customer.name.x'' =
     Inr \<lparr>rn_model = Null, rn_field = Null\<rparr>"
    by (simp add: resolveName_def example_graph_def)
  obtain s ss where "split (CHR ''.'') rest = s # ss"
    by (cases "split (CHR ''.'') rest") (auto simp: split_not_Nil)
  then show "resolveName example_graph (''customer.name.x'' @ rest) =
     Inr \<lparr>rn_model = Null, rn_field = Null\<rparr>"
    by (simp add: resolveName_def example_graph_def)
  have "split (CHR ''.'') (''customer.name'' @ concat (replicate n ''.name'')) =
        [''customer'', ''name''] @ replicate n ''name''"
    by (simp only: split_dot_name_segments) simp
  then show "resolveName example_graph (''customer.name'' @ concat (replicate n ''.name'')) =
     Inr \<lparr>rn_model = Str ''Customer'', rn_field = Str ''name''\<rparr>"
    using resolveName_loop_name_segments [of n]
    by (simp add: resolveName_def example_graph_def)
qed

text \<open>
  C5 fails on the code. A segment looked up after a terminal scalar field does not fail
  the resolution when the scalar's model has a field of that name: in the example graph
  \<open>customer.name.name\<close>, a sub-path of the scalar \<open>name\<close>, resolves to model
  \<open>Customer\<close> and field \<open>name\<close>. The comment in \<^verbatim>\<open>getContext\<close> says that a concrete
  field cannot have any properties, and its field branch rejects a name that resolved to
  a field; the loop of \<^verbatim>\<open>resolveName\<close> has no such check.
\<close>

theorem resolveName_subpath_of_scalar_resolves:
  "resolveName example_graph ''customer.name.name'' =
     Inr \<lparr>rn_model = Str ''Customer'', rn_field = Str ''name''\<rparr>"
  by (simp add: resolveName_def example_graph_def)

subsection \<open>Facts about the tokenizer\<close>

text \<open>
  With this engine the order of registration decides between rules that match at the
  same position. The source registers \<open>>\<close> before \<open>>=\<close>, \<open><\<close> before \<open><=\<close> and
  the integer pattern before the float pattern, and wherever the later rule of such a
  pair matches, the earlier one matches too. Only \<open>!=\<close> and \<open>!~\<close> are matched by a
  single rule. An engine that prefers the longer match would tokenize the first three
  texts below differently; which of the two the library does is not visible in the
  source.
\<close>

lemma float_match_implies_int_match: "floatRegex s = Some n \<Longrightarrow> \<exists>m. intRegex s = Some m"
  by (auto simp: floatRegex_def split: option.splits)

lemma lexAll_overlapping_rules:
  "map tk_name (lexAll ''>='') = [GREATER, EQUALS]"
  "map tk_name (lexAll ''<='') = [LESS, EQUALS]"
  "map tk_name (lexAll ''1.5'') = [INT_VALUE, DOT, INT_VALUE]"
  "map tk_name (lexAll ''!='') = [NOT_EQUALS]"
  "map tk_name (lexAll ''!~'') = [NOT_CONTAINS]"
  by code_simp+

lemma regex_Nil:
  "whitespaceRegex [] = None" "nameRegex [] = None" "stringRegex [] = None"
  "intRegex [] = None" "floatRegex [] = None"
  by (simp_all add: whitespaceRegex_def nameRegex_def stringRegex_def intRegex_def
      floatRegex_def)

lemma literal_Nil: "lit \<noteq> [] \<Longrightarrow> literal lit [] = None"
  by (auto simp: literal_def)

lemma keyword_Nil: "kw \<noteq> [] \<Longrightarrow> keyword kw [] = None"
  by (auto simp: keyword_def)

lemma first_match_registered_Nil: "first_match registered_rules [] = None"
  by (simp add: registered_rules_def whitespace_rule_def literal_rule_def keyword_rule_def
      name_rule_def string_rule_def int_rule_def float_rule_def regex_Nil literal_Nil
      keyword_Nil)

text \<open>
  The value of a token is never longer than its lexeme, and only a string literal can
  have the empty value.
\<close>

lemma first_match_registered_value:
  assumes "first_match registered_rules s = Some (n, Some (k, v))"
  shows "length v \<le> n \<and> (v = [] \<longrightarrow> k = STRING_VALUE)"
proof -
  from assms have pos: "0 < n" by (rule first_match_registered_pos)
  from assms have "s \<noteq> []" by (auto simp: first_match_registered_Nil)
  with pos have ne: "take n s \<noteq> []" by simp
  from assms
  have "v = take n s \<or>
        (k = STRING_VALUE \<and> v = slice 1 (length (take n s) - 1) (take n s))"
    unfolding registered_rules_def whitespace_rule_def literal_rule_def keyword_rule_def name_rule_def
      string_rule_def int_rule_def float_rule_def token_def
    by (simp split: option.splits)
  with ne show ?thesis by (auto simp: slice_def)
qed

lemma lex_value:
  "lex input index = Some ((k, v), index') \<Longrightarrow>
     index + length v \<le> index' \<and> (v = [] \<longrightarrow> k = STRING_VALUE)"
proof (induction input index rule: lex.induct)
  case (1 input index)
  from "1.prems" have less: "index < length input"
    by (subst (asm) lex.simps) (simp split: if_splits)
  show ?case
  proof (cases "first_match registered_rules (drop index input)")
    case None
    with less "1.prems" have "lex input (Suc index) = Some ((k, v), index')"
      by (subst (asm) lex.simps) simp
    with "1.IH"(1) less None show ?thesis by fastforce
  next
    case (Some m)
    obtain n a where m: "m = (n, a)" by (cases m)
    show ?thesis
    proof (cases a)
      case None
      with less Some m "1.prems" have "lex input (index + n) = Some ((k, v), index')"
        by (subst (asm) lex.simps) simp
      with "1.IH"(2) less Some m None show ?thesis by fastforce
    next
      case (Some t)
      with less \<open>first_match registered_rules (drop index input) = Some m\<close> m "1.prems"
      have "index' = index + n \<and> t = (k, v)"
        by (subst (asm) lex.simps) simp
      with first_match_registered_value [of "drop index input" n k v]
        \<open>first_match registered_rules (drop index input) = Some m\<close> m Some
      show ?thesis by simp
    qed
  qed
qed

lemma lexAll_loop_spans:
  assumes "\<forall>t \<in> set result.
             tk_start t + length (tk_value t) = tk_end t \<and> tk_end t \<le> index \<and>
             (tk_value t = [] \<longrightarrow> tk_name t = STRING_VALUE)"
    and "sorted_wrt (\<lambda>a b. tk_end a \<le> tk_start b) result"
  shows "(\<forall>t \<in> set (lexAll_loop input index result).
             tk_start t + length (tk_value t) = tk_end t \<and>
             (tk_value t = [] \<longrightarrow> tk_name t = STRING_VALUE)) \<and>
         sorted_wrt (\<lambda>a b. tk_end a \<le> tk_start b) (lexAll_loop input index result)"
  using assms
proof (induction input index result rule: lexAll_loop.induct)
  case (1 input index result)
  show ?case
  proof (cases "lex input index")
    case None
    then have "lexAll_loop input index result = result"
      by (subst lexAll_loop.simps) simp
    with "1.prems" show ?thesis by auto
  next
    case (Some x)
    obtain k v index' where x: "x = ((k, v), index')" by (cases x) auto
    let ?tok = "\<lparr>tk_name = k, tk_value = v, tk_start = index' - length v, tk_end = index'\<rparr>"
    from Some x lex_value [of input index k v index']
    have v: "index + length v \<le> index'" "v = [] \<longrightarrow> k = STRING_VALUE" by auto
    have a: "\<forall>t \<in> set (result @ [?tok]).
               tk_start t + length (tk_value t) = tk_end t \<and> tk_end t \<le> index' \<and>
               (tk_value t = [] \<longrightarrow> tk_name t = STRING_VALUE)"
      using "1.prems"(1) v by fastforce
    have b: "sorted_wrt (\<lambda>a b. tk_end a \<le> tk_start b) (result @ [?tok])"
      using "1.prems" v by (fastforce simp: sorted_wrt_append)
    from Some x
    have "lexAll_loop input index result = lexAll_loop input index' (result @ [?tok])"
      by (subst lexAll_loop.simps) simp
    with "1.IH" [OF Some x [symmetric] refl a b]
    show ?thesis by simp
  qed
qed

text \<open>
  What does hold of the spans for every text: the start of a token is its end minus the
  length of its value, so a span is empty exactly when the value is, which only a string
  literal allows; and each token starts at or after the end of the one before it.
\<close>

lemma lexAll_spans:
  "(\<forall>t \<in> set (lexAll input).
       tk_start t + length (tk_value t) = tk_end t \<and>
       (tk_value t = [] \<longrightarrow> tk_name t = STRING_VALUE)) \<and>
   sorted_wrt (\<lambda>a b. tk_end a \<le> tk_start b) (lexAll input)"
  unfolding lexAll_def by (rule lexAll_loop_spans) simp_all

text \<open>
  C2 fails on the code. The text that consists of two double quotes is one STRING_VALUE
  token with the empty value; \<^verbatim>\<open>lexAll\<close> computes its start from the length of the
  value, whose quotes are stripped, so that start and end are both 2 and the span is
  empty.
\<close>

theorem lexAll_empty_string_literal_span:
  "lexAll [CHR 0x22, CHR 0x22] =
     [\<lparr>tk_name = STRING_VALUE, tk_value = [], tk_start = 2, tk_end = 2\<rparr>]"
  by code_simp

text \<open>
  The lexeme of a string literal: what \<^verbatim>\<open>stringRegex\<close> matches lies within the
  text, begins with a quote and ends with a quote.
\<close>

lemma string_rest_quote:
  "string_rest cs = Some m \<Longrightarrow> 0 < m \<and> m \<le> length cs \<and> cs ! (m - 1) = CHR 0x22"
proof (induction cs arbitrary: m rule: string_rest.induct)
  case 1
  then show ?case by simp
next
  case (2 c cs)
  show ?case
  proof (cases "c = CHR 0x5C")
    case True
    show ?thesis
    proof (cases cs)
      case Nil
      with True "2.prems" show ?thesis by simp
    next
      case (Cons d ds)
      show ?thesis
      proof (cases "d \<in> set [CHR 0x5C, CHR 0x22, CHR ''/'', CHR ''b'', CHR ''f'', CHR ''n'',
                          CHR ''r'', CHR ''t'']")
        case esc: True
        with True Cons "2.prems" obtain k where k: "string_rest ds = Some k" "m = k + 2"
          by auto
        from "2.IH"(1) [OF True Cons esc k(1)] k(2) Cons show ?thesis
          by (cases k) auto
      next
        case noesc: False
        show ?thesis
        proof (cases "d = CHR ''u'' \<and> 4 \<le> length ds \<and> list_all is_hex_digit (take 4 ds)")
          case uni: True
          with True Cons noesc "2.prems"
          obtain k where k: "string_rest (drop 4 ds) = Some k" "m = k + 6"
            by auto
          from "2.IH"(2) [OF True Cons noesc uni k(1)]
          have "0 < k" "k \<le> length ds - 4" "drop 4 ds ! (k - 1) = CHR 0x22" by auto
          with k(2) Cons uni show ?thesis
            by (cases k) (auto simp: nth_Cons')
        next
          case False
          with True Cons noesc "2.prems" show ?thesis by auto
        qed
      qed
    qed
  next
    case nobs: False
    show ?thesis
    proof (cases "c = CHR 0x22")
      case True
      with nobs "2.prems" show ?thesis by auto
    next
      case noq: False
      show ?thesis
      proof (cases "c \<in> set [CHR 0x0A, CHR 0x0D]")
        case True
        with nobs noq "2.prems" show ?thesis by auto
      next
        case False
        with nobs noq "2.prems" obtain k where k: "string_rest cs = Some k" "m = Suc k"
          by auto
        from "2.IH"(3) [OF nobs noq False k(1)] k(2) show ?thesis
          by (cases k) auto
      qed
    qed
  qed
qed

lemma quoted_shape:
  assumes "2 \<le> length xs" and "xs ! 0 = q" and "xs ! (length xs - 1) = q"
  shows "xs = q # slice 1 (length xs - 1) xs @ [q]"
proof -
  from assms(1) obtain y ys where xs: "xs = y # ys" and "ys \<noteq> []"
    by (cases xs) (auto simp: Suc_le_eq)
  then have ys: "ys = butlast ys @ [last ys]" by simp
  from xs assms(2) have "y = q" by simp
  moreover from xs assms(3) \<open>ys \<noteq> []\<close> have "last ys = q"
    by (simp add: last_conv_nth)
  moreover have "slice 1 (length xs - 1) xs = butlast ys"
    using xs by (simp add: slice_def butlast_conv_take)
  ultimately show ?thesis using xs ys by simp
qed

lemma stringRegex_lexeme:
  assumes "stringRegex s = Some n"
  shows "n \<le> length s \<and> take n s = CHR 0x22 # slice 1 (n - 1) (take n s) @ [CHR 0x22]"
proof -
  from assms obtain cs m where s: "s = CHR 0x22 # cs" and m: "string_rest cs = Some m" "n = Suc m"
    by (auto simp: stringRegex_def split: list.splits if_splits)
  from string_rest_quote [OF m(1)] have q: "0 < m" "m \<le> length cs" "cs ! (m - 1) = CHR 0x22"
    by auto
  with s m have len: "n \<le> length s" by simp
  then have l: "length (take n s) = n" by simp
  have a: "take n s ! 0 = CHR 0x22" using s m by simp
  have b: "take n s ! (length (take n s) - 1) = CHR 0x22"
    using s m q len by (cases m) auto
  have c: "2 \<le> length (take n s)" using l m q by simp
  from quoted_shape [OF c a b] len l show ?thesis by simp
qed

lemma first_match_registered_string:
  assumes "first_match registered_rules s = Some (n, Some (STRING_VALUE, v))"
  shows "n \<le> length s \<and> take n s = CHR 0x22 # v @ [CHR 0x22]"
proof -
  from assms
  have re: "stringRegex s = Some n"
    and v: "v = slice 1 (length (take n s) - 1) (take n s)"
    unfolding registered_rules_def whitespace_rule_def literal_rule_def keyword_rule_def
      name_rule_def string_rule_def int_rule_def float_rule_def token_def
    by (simp_all split: option.splits)
  from stringRegex_lexeme [OF re]
  have len: "n \<le> length s"
    and shape: "take n s = CHR 0x22 # slice 1 (n - 1) (take n s) @ [CHR 0x22]" by auto
  from len have "length (take n s) = n" by simp
  with v have "v = slice 1 (n - 1) (take n s)" by simp
  with len shape show ?thesis by simp
qed

lemma lex_string:
  "lex input index = Some ((STRING_VALUE, v), index') \<Longrightarrow>
     length v + 2 \<le> index' \<and>
     slice (index' - (length v + 2)) index' input = CHR 0x22 # v @ [CHR 0x22]"
proof (induction input index rule: lex.induct)
  case (1 input index)
  from "1.prems" have less: "index < length input"
    by (subst (asm) lex.simps) (simp split: if_splits)
  show ?case
  proof (cases "first_match registered_rules (drop index input)")
    case None
    with less "1.prems" have "lex input (Suc index) = Some ((STRING_VALUE, v), index')"
      by (subst (asm) lex.simps) simp
    with "1.IH"(1) less None show ?thesis by fastforce
  next
    case (Some m)
    obtain n a where m: "m = (n, a)" by (cases m)
    show ?thesis
    proof (cases a)
      case None
      with less Some m "1.prems"
      have "lex input (index + n) = Some ((STRING_VALUE, v), index')"
        by (subst (asm) lex.simps) simp
      with "1.IH"(2) less Some m None show ?thesis by fastforce
    next
      case (Some t)
      with less \<open>first_match registered_rules (drop index input) = Some m\<close> m "1.prems"
      have eq: "index' = index + n \<and> t = (STRING_VALUE, v)"
        by (subst (asm) lex.simps) simp
      with first_match_registered_string [of "drop index input" n v]
        \<open>first_match registered_rules (drop index input) = Some m\<close> m Some
      have lexeme: "n \<le> length (drop index input)"
        "take n (drop index input) = CHR 0x22 # v @ [CHR 0x22]" by auto
      from lexeme(2) have "length (take n (drop index input)) = length v + 2" by simp
      with lexeme(1) have n: "n = length v + 2" by simp
      with eq lexeme(2) show ?thesis by (simp add: slice_def)
    qed
  qed
qed

lemma lexAll_loop_string:
  assumes "\<forall>t \<in> set result. tk_name t = STRING_VALUE \<longrightarrow>
             length (tk_value t) + 2 \<le> tk_end t \<and>
             slice (tk_end t - (length (tk_value t) + 2)) (tk_end t) input =
               CHR 0x22 # tk_value t @ [CHR 0x22]"
  shows "\<forall>t \<in> set (lexAll_loop input index result). tk_name t = STRING_VALUE \<longrightarrow>
             length (tk_value t) + 2 \<le> tk_end t \<and>
             slice (tk_end t - (length (tk_value t) + 2)) (tk_end t) input =
               CHR 0x22 # tk_value t @ [CHR 0x22]"
  using assms
proof (induction input index result rule: lexAll_loop.induct)
  case (1 input index result)
  show ?case
  proof (cases "lex input index")
    case None
    then have "lexAll_loop input index result = result"
      by (subst lexAll_loop.simps) simp
    with "1.prems" show ?thesis by simp
  next
    case (Some x)
    obtain k v index' where x: "x = ((k, v), index')" by (cases x) auto
    let ?tok = "\<lparr>tk_name = k, tk_value = v, tk_start = index' - length v, tk_end = index'\<rparr>"
    have a: "\<forall>t \<in> set (result @ [?tok]). tk_name t = STRING_VALUE \<longrightarrow>
               length (tk_value t) + 2 \<le> tk_end t \<and>
               slice (tk_end t - (length (tk_value t) + 2)) (tk_end t) input =
                 CHR 0x22 # tk_value t @ [CHR 0x22]"
      using "1.prems" Some x lex_string [of input index v index'] by auto
    from Some x
    have "lexAll_loop input index result = lexAll_loop input index' (result @ [?tok])"
      by (subst lexAll_loop.simps) simp
    with "1.IH" [OF Some x [symmetric] refl a]
    show ?thesis by simp
  qed
qed

text \<open>
  C8. For every text, the value of each STRING_VALUE token is the lexeme without its
  two surrounding quotes and otherwise unchanged: the text that ends at the token's end
  and is two characters longer than the value is a quote, the value, a quote. Escape
  sequences are therefore kept as written. The six-character text quote, \<open>a\<close>,
  backslash, quote, \<open>b\<close>, quote is tokenized to one STRING_VALUE token whose value is the
  four-character text \<open>a\<close>, backslash, quote, \<open>b\<close>.
\<close>

theorem string_value_keeps_escapes:
  "(\<forall>t \<in> set (lexAll input). tk_name t = STRING_VALUE \<longrightarrow>
      length (tk_value t) + 2 \<le> tk_end t \<and>
      slice (tk_end t - (length (tk_value t) + 2)) (tk_end t) input =
        CHR 0x22 # tk_value t @ [CHR 0x22]) \<and>
   map (\<lambda>t. (tk_name t, tk_value t))
       (lexAll [CHR 0x22, CHR ''a'', CHR 0x5C, CHR 0x22, CHR ''b'', CHR 0x22]) =
     [(STRING_VALUE, [CHR ''a'', CHR 0x5C, CHR 0x22, CHR ''b''])]"
proof
  show "\<forall>t \<in> set (lexAll input). tk_name t = STRING_VALUE \<longrightarrow>
      length (tk_value t) + 2 \<le> tk_end t \<and>
      slice (tk_end t - (length (tk_value t) + 2)) (tk_end t) input =
        CHR 0x22 # tk_value t @ [CHR 0x22]"
    unfolding lexAll_def by (rule lexAll_loop_string) simp
  show "map (\<lambda>t. (tk_name t, tk_value t))
       (lexAll [CHR 0x22, CHR ''a'', CHR 0x5C, CHR 0x22, CHR ''b'', CHR 0x22]) =
     [(STRING_VALUE, [CHR ''a'', CHR 0x5C, CHR 0x22, CHR ''b''])]"
    by code_simp
qed

theorem string_value_keeps_escapes_witness:
  "lexAll [CHR ''x'', CHR ''='', CHR 0x22, CHR ''a'', CHR 0x5C, CHR ''n'', CHR 0x22] =
     [\<lparr>tk_name = NAME, tk_value = ''x'', tk_start = 0, tk_end = 1\<rparr>,
      \<lparr>tk_name = EQUALS, tk_value = ''='', tk_start = 1, tk_end = 2\<rparr>,
      \<lparr>tk_name = STRING_VALUE, tk_value = [CHR ''a'', CHR 0x5C, CHR ''n''], tk_start = 4,
       tk_end = 7\<rparr>] \<and>
   slice 2 7 [CHR ''x'', CHR ''='', CHR 0x22, CHR ''a'', CHR 0x5C, CHR ''n'', CHR 0x22] =
     CHR 0x22 # [CHR ''a'', CHR 0x5C, CHR ''n''] @ [CHR 0x22]"
proof -
  let ?input = "[CHR ''x'', CHR ''='', CHR 0x22, CHR ''a'', CHR 0x5C, CHR ''n'', CHR 0x22]"
  let ?t = "\<lparr>tk_name = STRING_VALUE, tk_value = [CHR ''a'', CHR 0x5C, CHR ''n''],
             tk_start = 4, tk_end = 7\<rparr>"
  have toks: "lexAll ?input =
     [\<lparr>tk_name = NAME, tk_value = ''x'', tk_start = 0, tk_end = 1\<rparr>,
      \<lparr>tk_name = EQUALS, tk_value = ''='', tk_start = 1, tk_end = 2\<rparr>, ?t]"
    by code_simp
  then have mem: "?t \<in> set (lexAll ?input)" by simp
  from string_value_keeps_escapes [of ?input, THEN conjunct1, THEN bspec, OF mem]
  have "slice 2 7 ?input = CHR 0x22 # [CHR ''a'', CHR 0x5C, CHR ''n''] @ [CHR 0x22]"
    by simp
  with toks show ?thesis by blast
qed

subsection \<open>Facts about the cursor context\<close>


lemma split_no_separator: "sep \<notin> set s \<Longrightarrow> split sep s = [s]"
  by (induction s) auto

text \<open>
  The rule of \<^verbatim>\<open>getContext\<close> for an opening parenthesis, on every text, cursor and
  graph: when the last token before the text being typed is an opening parenthesis and
  that text contains no dot, the context is decided by the token before the parenthesis.
\<close>

lemma getContext_after_paren:
  assumes toks: "completed_tokens text cursorPos = pre @ [lt]"
    and paren: "tk_name lt = PAREN_L"
    and nodot: "CHR ''.'' \<notin> set (slice (tk_end lt) cursorPos text)"
  shows "((pre = [] \<or> tk_name (last pre) \<in> {AND, OR}) \<and>
            slice (tk_end lt) cursorPos text \<noteq> '')'' \<longrightarrow>
          (\<exists>p. getContext this text cursorPos =
                 Inr \<lparr>ctx_prefix = p, ctx_scope = Some FIELD, ctx_model = currentModel this,
                      ctx_field = Null\<rparr>)) \<and>
         (pre \<noteq> [] \<and> tk_name (last pre) = NOT \<longrightarrow>
          (\<exists>p. getContext this text cursorPos =
                 Inr \<lparr>ctx_prefix = p, ctx_scope = None, ctx_model = Null, ctx_field = Null\<rparr>))"
proof -
  define raw where "raw = slice (tk_end lt) cursorPos text"
  define ws where "ws = match whitespaceRegex raw"
  define p1 where "p1 = (case ws of None \<Rightarrow> raw | Some w \<Rightarrow> drop (length w) raw)"
  define p2 where "p2 = (if p1 = ''('' then [] else p1)"
  define ntl where "ntl = (if pre = [] then None else Some (last pre))"
  have tokens: "(if lexAll (slice 0 cursorPos text) \<noteq> [] \<and>
                    cursorPos \<le> tk_end (last (lexAll (slice 0 cursorPos text)))
                 then butlast (lexAll (slice 0 cursorPos text))
                 else lexAll (slice 0 cursorPos text)) = pre @ [lt]"
    using toks by (simp add: completed_tokens_def Let_def)
  have ntl: "(if 1 < length (pre @ [lt]) then Some ((pre @ [lt]) ! (length (pre @ [lt]) - 2))
              else None) = ntl"
    by (cases pre rule: rev_cases) (simp_all add: ntl_def nth_append)
  have "set p1 \<subseteq> set raw"
    by (auto simp: p1_def split: option.splits dest: in_set_dropD)
  with nodot have "CHR ''.'' \<notin> set p2" by (auto simp: p2_def raw_def)
  then have p2: "p2 \<noteq> ''.''" "split (CHR ''.'') p2 = [p2]"
    by (auto simp: split_no_separator)
  have first: "raw \<noteq> '')'' \<Longrightarrow> \<not> (p2 = '')'' \<and> ws = None)"
    by (cases ws) (auto simp: p2_def p1_def split: if_splits)
  have lastTok: "(if pre @ [lt] \<noteq> [] then Some (last (pre @ [lt])) else None) = Some lt"
    by simp
  have ctx: "getContext this text cursorPos =
     (if p2 = '')'' \<and> ws = None then
        Inr \<lparr>ctx_prefix = p2, ctx_scope = None, ctx_model = Null, ctx_field = Null\<rparr>
      else if Some lt = None \<or>
              (name_in (Some lt) [AND, OR] \<and> ws \<noteq> None) \<or>
              (p2 = ''.'' \<and> Some lt \<noteq> None \<and> ws = None) \<or>
              (name_in (Some lt) [PAREN_L] \<and> (ntl = None \<or> name_in ntl [AND, OR])) then
        field_branch this text cursorPos (Some lt) p2
      else if Some lt \<noteq> None \<and> ws \<noteq> None \<and> name_in ntl [NAME] \<and>
              name_in (Some lt) [EQUALS, NOT_EQUALS, CONTAINS, NOT_CONTAINS, GREATER_EQUAL,
                                  GREATER, LESS_EQUAL, LESS] then
        (case ntl of
           None \<Rightarrow> Inl TypeError
         | Some t \<Rightarrow> name_branch this VALUE (tk_value t) p2)
      else if ws \<noteq> None \<and> name_in (Some lt) [NAME] then
        (case Some lt of
           None \<Rightarrow> Inl TypeError
         | Some t \<Rightarrow> name_branch this COMPARISON (tk_value t) p2)
      else if ws \<noteq> None \<and>
              name_in (Some lt) [PAREN_R, INT_VALUE, FLOAT_VALUE, STRING_VALUE] then
        Inr \<lparr>ctx_prefix = p2, ctx_scope = Some LOGICAL, ctx_model = Null, ctx_field = Null\<rparr>
      else
        Inr \<lparr>ctx_prefix = p2, ctx_scope = None, ctx_model = Null, ctx_field = Null\<rparr>)"
    unfolding p2_def p1_def ws_def raw_def
    by (simp only: getContext_def Let_def tokens ntl lastTok option.case)
  have lt_names: "\<not> name_in (Some lt) [AND, OR]" "name_in (Some lt) [PAREN_L]"
    "\<not> name_in (Some lt) [NAME]"
    "\<not> name_in (Some lt) [PAREN_R, INT_VALUE, FLOAT_VALUE, STRING_VALUE]"
    "\<not> name_in (Some lt) [EQUALS, NOT_EQUALS, CONTAINS, NOT_CONTAINS, GREATER_EQUAL,
                                  GREATER, LESS_EQUAL, LESS]"
    using paren by simp_all
  show ?thesis
  proof (intro conjI impI)
    assume a: "(pre = [] \<or> tk_name (last pre) \<in> {AND, OR}) \<and>
               slice (tk_end lt) cursorPos text \<noteq> '')''"
    then have "ntl = None \<or> name_in ntl [AND, OR]" by (auto simp: ntl_def)
    moreover from a first have "\<not> (p2 = '')'' \<and> ws = None)" by (simp add: raw_def)
    ultimately have "getContext this text cursorPos =
        field_branch this text cursorPos (Some lt) p2"
      unfolding ctx using lt_names by auto
    with p2 show "\<exists>p. getContext this text cursorPos =
                 Inr \<lparr>ctx_prefix = p, ctx_scope = Some FIELD, ctx_model = currentModel this,
                      ctx_field = Null\<rparr>"
      by (simp add: field_branch_def)
  next
    assume a: "pre \<noteq> [] \<and> tk_name (last pre) = NOT"
    then have n: "ntl \<noteq> None" "\<not> name_in ntl [AND, OR]" "\<not> name_in ntl [NAME]"
      by (auto simp: ntl_def)
    show "\<exists>p. getContext this text cursorPos =
                 Inr \<lparr>ctx_prefix = p, ctx_scope = None, ctx_model = Null, ctx_field = Null\<rparr>"
      unfolding ctx using lt_names n p2(1)
      by (cases "p2 = '')'' \<and> ws = None") auto
  qed
qed

text \<open>
  C9. When the last token before the text being typed is an opening parenthesis (and
  that text has no dot and is not a lone closing parenthesis), the scope is FIELD on the
  root model if nothing or \<open>and\<close> or \<open>or\<close> precedes the parenthesis, and there is no
  scope if \<open>not\<close> precedes it. So \<open>(c\<close> and \<open>a and (c\<close> give FIELD on the root model
  with prefix \<open>c\<close> and \<open>not (c\<close> gives no scope. With the cursor right after the
  parenthesis, \<open>(\<close> at position 1 and \<open>a and (\<close> at position 7 give FIELD on the root
  model, and \<open>not (\<close> at position 5 gives no scope and no suggestions.
\<close>

theorem getContext_paren_after_not:
  assumes "completed_tokens text cursorPos = pre @ [lt]"
    and "tk_name lt = PAREN_L"
    and "CHR ''.'' \<notin> set (slice (tk_end lt) cursorPos text)"
  shows "((pre = [] \<or> tk_name (last pre) \<in> {AND, OR}) \<and>
            slice (tk_end lt) cursorPos text \<noteq> '')'' \<longrightarrow>
          (\<exists>p. getContext this text cursorPos =
                 Inr \<lparr>ctx_prefix = p, ctx_scope = Some FIELD, ctx_model = currentModel this,
                      ctx_field = Null\<rparr>)) \<and>
         (pre \<noteq> [] \<and> tk_name (last pre) = NOT \<longrightarrow>
          (\<exists>p. getContext this text cursorPos =
                 Inr \<lparr>ctx_prefix = p, ctx_scope = None, ctx_model = Null, ctx_field = Null\<rparr>)) \<and>
         getContext example_graph ''(c'' 2 =
           Inr \<lparr>ctx_prefix = ''c'', ctx_scope = Some FIELD, ctx_model = Str ''Order'',
                ctx_field = Null\<rparr> \<and>
         getContext example_graph ''a and (c'' 8 =
           Inr \<lparr>ctx_prefix = ''c'', ctx_scope = Some FIELD, ctx_model = Str ''Order'',
                ctx_field = Null\<rparr> \<and>
         getContext example_graph ''not (c'' 6 =
           Inr \<lparr>ctx_prefix = ''c'', ctx_scope = None, ctx_model = Null, ctx_field = Null\<rparr> \<and>
         getContext example_graph ''not ('' 5 =
           Inr \<lparr>ctx_prefix = [], ctx_scope = None, ctx_model = Null, ctx_field = Null\<rparr> \<and>
         generateSuggestions example_graph
             \<lparr>inp_value = ''not ('', selectionStart = 5, selectionEnd = 5\<rparr> =
           Inr (example_graph\<lparr>prefix := [], suggestions := []\<rparr>) \<and>
         getContext example_graph ''('' 1 =
           Inr \<lparr>ctx_prefix = [], ctx_scope = Some FIELD, ctx_model = Str ''Order'',
                ctx_field = Null\<rparr> \<and>
         getContext example_graph ''a and ('' 7 =
           Inr \<lparr>ctx_prefix = [], ctx_scope = Some FIELD, ctx_model = Str ''Order'',
                ctx_field = Null\<rparr>"
proof -
  have instances:
    "getContext example_graph ''(c'' 2 =
       Inr \<lparr>ctx_prefix = ''c'', ctx_scope = Some FIELD, ctx_model = Str ''Order'',
            ctx_field = Null\<rparr> \<and>
     getContext example_graph ''a and (c'' 8 =
       Inr \<lparr>ctx_prefix = ''c'', ctx_scope = Some FIELD, ctx_model = Str ''Order'',
            ctx_field = Null\<rparr> \<and>
     getContext example_graph ''not (c'' 6 =
       Inr \<lparr>ctx_prefix = ''c'', ctx_scope = None, ctx_model = Null, ctx_field = Null\<rparr> \<and>
     getContext example_graph ''not ('' 5 =
       Inr \<lparr>ctx_prefix = [], ctx_scope = None, ctx_model = Null, ctx_field = Null\<rparr> \<and>
     generateSuggestions example_graph
         \<lparr>inp_value = ''not ('', selectionStart = 5, selectionEnd = 5\<rparr> =
       Inr (example_graph\<lparr>prefix := [], suggestions := []\<rparr>) \<and>
     getContext example_graph ''('' 1 =
       Inr \<lparr>ctx_prefix = [], ctx_scope = Some FIELD, ctx_model = Str ''Order'',
            ctx_field = Null\<rparr> \<and>
     getContext example_graph ''a and ('' 7 =
       Inr \<lparr>ctx_prefix = [], ctx_scope = Some FIELD, ctx_model = Str ''Order'',
            ctx_field = Null\<rparr>"
    by code_simp
  from getContext_after_paren [OF assms, of this] instances show ?thesis by blast
qed

theorem getContext_paren_after_not_witness:
  "(\<exists>p. getContext kinds_graph ''not (c'' 6 =
          Inr \<lparr>ctx_prefix = p, ctx_scope = None, ctx_model = Null, ctx_field = Null\<rparr>) \<and>
   (\<exists>p. getContext kinds_graph ''a and (c'' 8 =
          Inr \<lparr>ctx_prefix = p, ctx_scope = Some FIELD, ctx_model = Str ''Customer'',
               ctx_field = Null\<rparr>) \<and>
   (\<exists>p. getContext kinds_graph ''( '' 2 =
          Inr \<lparr>ctx_prefix = p, ctx_scope = Some FIELD, ctx_model = Str ''Customer'',
               ctx_field = Null\<rparr>)"
proof -
  let ?not = "\<lparr>tk_name = NOT, tk_value = ''not'', tk_start = 0, tk_end = 3\<rparr>"
  let ?and = "\<lparr>tk_name = AND, tk_value = ''and'', tk_start = 2, tk_end = 5\<rparr>"
  let ?a = "\<lparr>tk_name = NAME, tk_value = ''a'', tk_start = 0, tk_end = 1\<rparr>"
  have n1: "completed_tokens ''not (c'' 6 =
              [?not] @ [\<lparr>tk_name = PAREN_L, tk_value = ''('', tk_start = 4, tk_end = 5\<rparr>]"
    by code_simp
  have n2: "CHR ''.'' \<notin> set (slice 5 6 ''not (c'')" by (simp add: slice_def)
  have a1: "completed_tokens ''a and (c'' 8 =
              [?a, ?and] @ [\<lparr>tk_name = PAREN_L, tk_value = ''('', tk_start = 6, tk_end = 7\<rparr>]"
    by code_simp
  have a2: "CHR ''.'' \<notin> set (slice 7 8 ''a and (c'')" by (simp add: slice_def)
  have a3: "slice 7 8 ''a and (c'' \<noteq> '')''" by (simp add: slice_def)
  have p1: "completed_tokens ''( '' 2 =
              [] @ [\<lparr>tk_name = PAREN_L, tk_value = ''('', tk_start = 0, tk_end = 1\<rparr>]"
    by code_simp
  have p2: "CHR ''.'' \<notin> set (slice 1 2 ''( '')" by (simp add: slice_def)
  have p3: "slice 1 2 ''( '' \<noteq> '')''" by (simp add: slice_def)
  have cm: "currentModel kinds_graph = Str ''Customer''" by (simp add: kinds_graph_def)
  from getContext_paren_after_not [of "''not (c''" 6 "[?not]" _ kinds_graph, OF n1] n2
  have r1: "\<exists>p. getContext kinds_graph ''not (c'' 6 =
          Inr \<lparr>ctx_prefix = p, ctx_scope = None, ctx_model = Null, ctx_field = Null\<rparr>"
    by simp
  from getContext_paren_after_not [of "''a and (c''" 8 "[?a, ?and]" _ kinds_graph, OF a1] a2 a3 cm
  have r2: "\<exists>p. getContext kinds_graph ''a and (c'' 8 =
          Inr \<lparr>ctx_prefix = p, ctx_scope = Some FIELD, ctx_model = Str ''Customer'',
               ctx_field = Null\<rparr>"
    by simp
  from getContext_paren_after_not [of "''( ''" 2 "[]" _ kinds_graph, OF p1] p2 p3 cm
  have r3: "\<exists>p. getContext kinds_graph ''( '' 2 =
          Inr \<lparr>ctx_prefix = p, ctx_scope = Some FIELD, ctx_model = Str ''Customer'',
               ctx_field = Null\<rparr>"
    by simp
  from r1 r2 r3 show ?thesis by blast
qed

subsection \<open>Facts about the suggestions\<close>

lemma take_eq_iff_prefix: "(take (length p) item = p) = Sublist.prefix p item"
proof
  assume "take (length p) item = p"
  then show "Sublist.prefix p item" by (metis take_is_prefix)
next
  assume "Sublist.prefix p item"
  then show "take (length p) item = p" by (auto elim: prefixE)
qed

lemma lastIndexOf_0: "(lastIndexOf item p 0 = 0) = Sublist.prefix p item"
  by (simp add: lastIndexOf_def take_eq_iff_prefix)

lemma filter_suggestions_prefix:
  "filter_suggestions p items = filter (Sublist.prefix p) items"
  by (simp add: filter_suggestions_def lastIndexOf_0)

lemma switch_scope_prefix:
  "switch_scope this context = Inr (p, items) \<Longrightarrow> p = ctx_prefix context \<or> items = []"
  by (auto simp: switch_scope_def split: option.splits Scope.splits)

text \<open>
  The comparison suggestions for a field that has a name at all: the list does not
  depend on the field's definition.
\<close>

lemma comparison_suggestions_named_field:
  "s \<noteq> [] \<Longrightarrow>
   comparison_suggestions (Str s) =
     [''='', ''!='', ''>'', ''>='', ''<'', ''<='', ''in'', ''not in'']"
  by (simp add: comparison_suggestions_def string_type_property_def)

text \<open>
  C4 fails on the code. In \<open>kinds_graph\<close> the field \<open>name\<close> is a string and the field
  \<open>active\<close> a boolean, yet after either name \<^verbatim>\<open>generateSuggestions\<close> offers the same
  eight operators: no \<open>~\<close> and \<open>!~\<close> for the string field, and more than \<open>=\<close> and
  \<open>!=\<close> for the boolean one.
\<close>

theorem comparison_suggestions_same_for_str_and_bool:
  "generateSuggestions kinds_graph
       \<lparr>inp_value = ''name '', selectionStart = 5, selectionEnd = 5\<rparr> =
     Inr (kinds_graph\<lparr>prefix := [],
            suggestions := [''='', ''!='', ''>'', ''>='', ''<'', ''<='', ''in'', ''not in'']\<rparr>) \<and>
   generateSuggestions kinds_graph
       \<lparr>inp_value = ''active '', selectionStart = 7, selectionEnd = 7\<rparr> =
     Inr (kinds_graph\<lparr>prefix := [],
            suggestions := [''='', ''!='', ''>'', ''>='', ''<'', ''<='', ''in'', ''not in'']\<rparr>)"
  by code_simp

text \<open>
  C7. When nothing is selected, the suggestions \<^verbatim>\<open>generateSuggestions\<close> stores are the
  candidates of the scope that start with the prefix of the context, compared character
  by character, in the order of the candidates; and filtering any list by any prefix,
  \<open>na\<close> for one, keeps exactly its entries that begin with that prefix, in their order.
\<close>

theorem suggestions_filtered_by_prefix:
  assumes "selectionStart input = selectionEnd input"
    and "getContext this (inp_value input) (selectionStart input) = Inr context"
    and "switch_scope this context = Inr (p, items)"
  shows "(\<exists>this'. generateSuggestions this input = Inr this' \<and>
            suggestions this' = filter (Sublist.prefix (ctx_prefix context)) items) \<and>
         filter_suggestions q xs = filter (Sublist.prefix q) xs"
  using assms switch_scope_prefix [OF assms(3)]
  by (auto simp: generateSuggestions_def filter_suggestions_prefix)

theorem suggestions_filtered_by_prefix_witness:
  "(\<exists>this'. generateSuggestions kinds_graph
              \<lparr>inp_value = ''na'', selectionStart = 2, selectionEnd = 2\<rparr> = Inr this' \<and>
            suggestions this' = [''name'', ''nation'']) \<and>
   filter_suggestions ''na'' [''id'', ''name'', ''Nancy'', ''n'', ''na'', ''nation''] =
     [''name'', ''na'', ''nation'']"
proof -
  let ?input = "\<lparr>inp_value = ''na'', selectionStart = 2, selectionEnd = 2\<rparr>"
  let ?ctx = "\<lparr>ctx_prefix = ''na'', ctx_scope = Some FIELD, ctx_model = Str ''Customer'',
                    ctx_field = Null\<rparr>"
  have h1: "selectionStart ?input = selectionEnd ?input" by simp
  have h2: "getContext kinds_graph (inp_value ?input) (selectionStart ?input) = Inr ?ctx"
    by code_simp
  have h3: "switch_scope kinds_graph ?ctx =
              Inr (''na'', [''name'', ''id'', ''nation'', ''active''])"
    by code_simp
  from suggestions_filtered_by_prefix [OF h1 h2 h3,
      of "''na''" "[''id'', ''name'', ''Nancy'', ''n'', ''na'', ''nation'']"]
  show ?thesis by simp
qed

text \<open>
  C10. When the scope of the context is COMPARISON and its field is null, the candidates
  before the final filter are exactly \<open>=\<close> and \<open>!=\<close>.
\<close>

theorem comparison_null_field:
  assumes "ctx_scope context = Some COMPARISON" and "ctx_field context = Null"
  shows "switch_scope this context = Inr (ctx_prefix context, [''='', ''!=''])"
  using assms by (simp add: switch_scope_def comparison_suggestions_def)

theorem comparison_null_field_witness:
  "getContext example_graph ''customer '' 9 =
     Inr \<lparr>ctx_prefix = [], ctx_scope = Some COMPARISON, ctx_model = Str ''Customer'',
          ctx_field = Null\<rparr> \<and>
   switch_scope example_graph
     \<lparr>ctx_prefix = [], ctx_scope = Some COMPARISON, ctx_model = Str ''Customer'',
      ctx_field = Null\<rparr> = Inr ([], [''='', ''!=''])"
proof -
  let ?ctx = "\<lparr>ctx_prefix = [], ctx_scope = Some COMPARISON,
                    ctx_model = Str ''Customer'', ctx_field = Null\<rparr>"
  have ctx: "getContext example_graph ''customer '' 9 = Inr ?ctx" by code_simp
  have h1: "ctx_scope ?ctx = Some COMPARISON" by simp
  have h2: "ctx_field ?ctx = Null" by simp
  from ctx comparison_null_field [OF h1 h2, of example_graph] show ?thesis by simp
qed

end
